theory Spec2Isabelle
  imports Main "HOL-Library.Sublist"
begin

section \<open>The Helium auto-updater (auto\_updater.py), embedded in HOL\<close>

text \<open>
  Conventions of the embedding.
  \<^item> A Python \<open>str\<close> is a \<open>string\<close> whose characters are the code points below 256;
    bytes objects are strings too (only their lengths matter here).
  \<^item> A Python \<open>int\<close> is an \<open>int\<close>. \<open>int(str)\<close> has the interpreter's default limit on the
    number of digits, \<open>int_max_str_digits\<close>.
  \<^item> An exception derived from \<open>Exception\<close> is a value of \<open>py_error\<close>; a function that
    may raise returns \<open>py_error + 'a\<close>, with \<open>Inl\<close> the raised exception. Interrupts
    that do not derive from \<open>Exception\<close> are outside the model.
  \<^item> Calls into the operating system and the network get their outcome from the
    environment and may raise anything; so may the unlink in the handler of the
    download. Printing and the test whether a file exists are taken to succeed.
\<close>

subsection \<open>Exceptions\<close>

datatype py_error =
    ValueError
  | TypeError
  | AttributeError
  | FileNotFoundError
  | OSError
  | URLError
  | TimeoutExpired
  | OtherException string

text \<open>Sequencing of two computations that may raise: the first exception wins.\<close>

definition bnd :: "py_error + 'a \<Rightarrow> ('a \<Rightarrow> py_error + 'b) \<Rightarrow> py_error + 'b" where
  "bnd m f = (case m of Inl e \<Rightarrow> Inl e | Inr x \<Rightarrow> f x)"

subsection \<open>String operations of the Python runtime\<close>

text \<open>\<open>s.split(sep)\<close> for a one-character separator: never the empty list.\<close>

fun split_on :: "char \<Rightarrow> string \<Rightarrow> string list" where
  "split_on sep [] = [[]]"
| "split_on sep (c # cs) =
     (if c = sep then [] # split_on sep cs
      else (case split_on sep cs of
              [] \<Rightarrow> [[c]]
            | seg # segs \<Rightarrow> (c # seg) # segs))"

text \<open>\<open>s.lstrip(chars)\<close> for a one-character set: all leading occurrences go.\<close>

definition lstrip :: "char \<Rightarrow> string \<Rightarrow> string" where
  "lstrip ch s = dropWhile (\<lambda>c. c = ch) s"

text \<open>
  \<open>s.lower()\<close>: the letters A to Z, and the capital letters of Latin-1 (code points 192
  to 222 but for the multiplication sign, 215), move up by 32.
\<close>

definition lower_char :: "char \<Rightarrow> char" where
  "lower_char c =
     (let n = (of_char c :: nat)
      in if (65 \<le> n \<and> n \<le> 90) \<or> (192 \<le> n \<and> n \<le> 222 \<and> n \<noteq> 215)
         then char_of (n + 32) else c)"

definition lower :: "string \<Rightarrow> string" where
  "lower s = map lower_char s"

text \<open>\<open>sub in s\<close>, \<open>s.endswith(suf)\<close>.\<close>

definition contains :: "string \<Rightarrow> string \<Rightarrow> bool" where
  "contains sub s = sublist sub s"

definition endswith :: "string \<Rightarrow> string \<Rightarrow> bool" where
  "endswith s suf = suffix suf s"

subsection \<open>\<open>int(str)\<close>\<close>

definition is_digit :: "char \<Rightarrow> bool" where
  "is_digit c = (c \<in> set ''0123456789'')"

definition digit_val :: "char \<Rightarrow> nat" where
  "digit_val c = of_char c - 48"

text \<open>
  The characters that \<open>int\<close> skips at both ends: space, tab, LF, VT, FF, CR, and of the
  code points above 127 the next-line control (133) and the no-break space (160).
\<close>

definition is_space :: "char \<Rightarrow> bool" where
  "is_space c =
     (c \<in> set [CHR '' '', CHR 0x09, CHR 0x0A, CHR 0x0B, CHR 0x0C, CHR 0x0D, CHR 0x85, CHR 0xA0])"

definition strip :: "string \<Rightarrow> string" where
  "strip s = rev (dropWhile is_space (rev (dropWhile is_space s)))"

text \<open>
  The digits of a literal, read after a first digit with value \<open>n\<close> so far: digits,
  with single underscores allowed between two digits.
\<close>

fun digits_acc :: "nat \<Rightarrow> string \<Rightarrow> nat option" where
  "digits_acc n [] = Some n"
| "digits_acc n [c] = (if is_digit c then Some (10 * n + digit_val c) else None)"
| "digits_acc n (c # d # ds) =
     (if is_digit c then digits_acc (10 * n + digit_val c) (d # ds)
      else if c = CHR ''_'' \<and> is_digit d then digits_acc (10 * n + digit_val d) ds
      else None)"

definition parse_digits :: "string \<Rightarrow> nat option" where
  "parse_digits s =
     (case s of
        [] \<Rightarrow> None
      | c # cs \<Rightarrow> if is_digit c then digits_acc (digit_val c) cs else None)"

text \<open>
  The interpreter's default limit on the digits of a decimal literal
  (\<open>sys.get_int_max_str_digits()\<close>): a literal with more digits raises \<open>ValueError\<close>.
  Blanks, the sign and underscores do not count.
\<close>

definition int_max_str_digits :: nat where
  "int_max_str_digits = 4300"

definition py_int :: "string \<Rightarrow> py_error + int" where
  "py_int s =
     (let t = strip s;
          neg = (case t of [] \<Rightarrow> False | c # _ \<Rightarrow> c = CHR ''-'');
          u = (case t of [] \<Rightarrow> [] | c # r \<Rightarrow> if c = CHR ''+'' \<or> c = CHR ''-'' then r else t)
      in case parse_digits u of
           None \<Rightarrow> Inl ValueError
         | Some n \<Rightarrow>
             if length (filter is_digit u) > int_max_str_digits then Inl ValueError
             else Inr (if neg then - int n else int n))"

subsection \<open>Version comparison: \<open>HeliumUpdater._is_newer_version\<close>\<close>

text \<open>\<open>[int(x) for x in xs]\<close>: left to right, the first failure raises.\<close>

fun int_each :: "string list \<Rightarrow> py_error + int list" where
  "int_each [] = Inr []"
| "int_each (x # xs) =
     bnd (py_int x) (\<lambda>n. bnd (int_each xs) (\<lambda>ns. Inr (n # ns)))"

definition parse_version :: "string \<Rightarrow> py_error + int list" where
  "parse_version v = (let v' = hd (split_on CHR ''-'' v) in int_each (split_on CHR ''.'' v'))"

text \<open>
  Python's \<open>>\<close> on lists: the first index at which the elements differ decides; when
  there is none within the shorter list, the longer list is the greater.
\<close>

fun list_gt :: "int list \<Rightarrow> int list \<Rightarrow> bool" where
  "list_gt [] ys = False"
| "list_gt (x # xs) [] = True"
| "list_gt (x # xs) (y # ys) = (if x = y then list_gt xs ys else x > y)"

text \<open>\<open>parts.extend([0] * (max_len - len(parts)))\<close>\<close>

definition pad_to :: "nat \<Rightarrow> int list \<Rightarrow> int list" where
  "pad_to max_len parts = parts @ replicate (max_len - length parts) 0"

definition compare_versions :: "string \<Rightarrow> string \<Rightarrow> py_error + bool" where
  "compare_versions version1 version2 =
     bnd (parse_version version1) (\<lambda>v1_parts.
     bnd (parse_version version2) (\<lambda>v2_parts.
       let max_len = max (length v1_parts) (length v2_parts)
       in Inr (list_gt (pad_to max_len v1_parts) (pad_to max_len v2_parts))))"

text \<open>The \<open>try\<close> block is \<open>compare_versions\<close>; \<open>except ValueError\<close> answers \<open>False\<close>.\<close>

definition is_newer_version :: "string \<Rightarrow> string \<Rightarrow> py_error + bool" where
  "is_newer_version version1 version2 =
     (case compare_versions version1 version2 of
        Inl e \<Rightarrow> if e = ValueError then Inr False else Inl e
      | Inr b \<Rightarrow> Inr b)"

subsection \<open>Parsed JSON values\<close>

text \<open>
  What \<open>json.loads\<close> returns: \<open>None\<close>, booleans, integers, strings, lists and
  dictionaries (as association lists, looked up with \<open>map_of\<close>). \<open>JNull\<close> is \<open>None\<close>.
\<close>

datatype json =
    JNull
  | JBool bool
  | JInt int
  | JStr string
  | JList "json list"
  | JDict "(string \<times> json) list"

text \<open>Python's truth value of an object.\<close>

fun truthy :: "json \<Rightarrow> bool" where
  "truthy JNull = False"
| "truthy (JBool b) = b"
| "truthy (JInt n) = (n \<noteq> 0)"
| "truthy (JStr s) = (s \<noteq> [])"
| "truthy (JList xs) = (xs \<noteq> [])"
| "truthy (JDict kvs) = (kvs \<noteq> [])"

text \<open>\<open>d.get(key, default)\<close>: only a dictionary has the method.\<close>

fun py_get :: "json \<Rightarrow> string \<Rightarrow> json \<Rightarrow> py_error + json" where
  "py_get (JDict kvs) key dflt = Inr (case map_of kvs key of None \<Rightarrow> dflt | Some v \<Rightarrow> v)"
| "py_get _ key dflt = Inl AttributeError"

text \<open>\<open>x.lstrip(ch)\<close> and \<open>x.lower()\<close>: only a string has the methods.\<close>

fun str_lstrip :: "json \<Rightarrow> char \<Rightarrow> py_error + string" where
  "str_lstrip (JStr s) ch = Inr (lstrip ch s)"
| "str_lstrip _ ch = Inl AttributeError"

fun str_lower :: "json \<Rightarrow> py_error + string" where
  "str_lower (JStr s) = Inr (lower s)"
| "str_lower _ = Inl AttributeError"

text \<open>
  \<open>for x in v\<close>: a list gives its elements, a dictionary its keys, a string its
  characters; nothing else is iterable.
\<close>

fun py_iter :: "json \<Rightarrow> py_error + json list" where
  "py_iter (JList xs) = Inr xs"
| "py_iter (JDict kvs) = Inr (map (\<lambda>kv. JStr (fst kv)) kvs)"
| "py_iter (JStr s) = Inr (map (\<lambda>c. JStr [c]) s)"
| "py_iter _ = Inl TypeError"

subsection \<open>Architecture resolution: \<open>HeliumUpdater._get_architecture\<close>\<close>

text \<open>The argument is what \<open>platform.machine()\<close> reports.\<close>

definition get_architecture :: "string \<Rightarrow> string" where
  "get_architecture machine =
     (let arch = lower machine
      in if arch \<in> set [''amd64'', ''x86_64''] then ''x64''
         else if arch \<in> set [''arm64'', ''aarch64''] then ''arm64''
         else ''x64'')"

subsection \<open>Release query: \<open>HeliumUpdater._make_request\<close>\<close>

text \<open>
  The argument is the outcome of the \<open>try\<close> block (request, read, decode, parse):
  every exception is answered with \<open>None\<close>.
\<close>

definition make_request :: "py_error + json \<Rightarrow> json" where
  "make_request outcome = (case outcome of Inl e \<Rightarrow> JNull | Inr j \<Rightarrow> j)"

subsection \<open>Update availability: \<open>HeliumUpdater.check_for_updates\<close>\<close>

text \<open>\<open>f'_{arch}-' in name or f'-{arch}-' in name or f'_{arch}_' in name\<close>\<close>

definition arch_marker :: "string \<Rightarrow> string \<Rightarrow> bool" where
  "arch_marker arch name =
     (contains (''_'' @ arch @ ''-'') name \<or> contains (''-'' @ arch @ ''-'') name
      \<or> contains (''_'' @ arch @ ''_'') name)"

text \<open>The loop over the assets; the two variables start as \<open>None\<close>.\<close>

fun scan_assets :: "string \<Rightarrow> json list \<Rightarrow> json \<Rightarrow> json \<Rightarrow> py_error + json \<times> json" where
  "scan_assets arch [] installer_asset zip_asset = Inr (installer_asset, zip_asset)"
| "scan_assets arch (asset # rest) installer_asset zip_asset =
     bnd (py_get asset ''name'' (JStr [])) (\<lambda>nm.
     bnd (str_lower nm) (\<lambda>name.
       if arch_marker arch name then
         (if endswith name ''-installer.exe'' then scan_assets arch rest asset zip_asset
          else if endswith name ''-windows.zip'' then scan_assets arch rest installer_asset asset
          else scan_assets arch rest installer_asset zip_asset)
       else scan_assets arch rest installer_asset zip_asset))"

text \<open>Line 62: the candidate version string.\<close>

definition latest_version_of :: "json \<Rightarrow> py_error + string" where
  "latest_version_of latest_release =
     bnd (py_get latest_release ''tag_name'' (JStr [])) (\<lambda>tag. str_lstrip tag CHR ''v'')"

definition check_for_updates :: "string \<Rightarrow> string \<Rightarrow> py_error + json \<Rightarrow> py_error + json" where
  "check_for_updates current_version machine response =
     (let latest_release = make_request response
      in if \<not> truthy latest_release then Inr JNull
         else
           bnd (latest_version_of latest_release) (\<lambda>latest_version.
           if latest_version = [] then Inr JNull
           else
             bnd (is_newer_version latest_version current_version) (\<lambda>newer.
             if newer then
               (let arch = get_architecture machine
                in bnd (py_get latest_release ''assets'' (JList [])) (\<lambda>assets.
                   bnd (py_iter assets) (\<lambda>asset_list.
                   bnd (scan_assets arch asset_list JNull JNull) (\<lambda>found.
                     if truthy (fst found) \<or> truthy (snd found) then
                       bnd (py_get latest_release ''body'' (JStr [])) (\<lambda>body.
                       bnd (py_get latest_release ''html_url'' JNull) (\<lambda>html_url.
                       bnd (py_get latest_release ''published_at'' JNull) (\<lambda>published_at.
                         Inr (JDict
                           [(''version'', JStr latest_version),
                            (''release_notes'', body),
                            (''release_url'', html_url),
                            (''published_at'', published_at),
                            (''installer'', fst found),
                            (''zip_package'', snd found),
                            (''architecture'', JStr arch)]))))
                     else Inr JNull))))
             else Inr JNull)))"

subsection \<open>The world that download, install and cleanup act on\<close>

text \<open>
  The files by path, and three logs: the URLs opened, the calls of the progress
  callback, the processes spawned (argument list and timeout).
\<close>

record world =
  files :: "string \<Rightarrow> string option"
  requests :: "json list"
  progress :: "(int \<times> int) list"
  spawned :: "(string list \<times> nat) list"

definition path_exists :: "string \<Rightarrow> world \<Rightarrow> bool" where
  "path_exists p w = (files w p \<noteq> None)"

text \<open>
  \<open>Path(p).unlink()\<close>. The first argument is a refusal by the operating system, if any;
  a missing file raises \<open>FileNotFoundError\<close>.
\<close>

definition path_unlink :: "py_error option \<Rightarrow> string \<Rightarrow> world \<Rightarrow> (py_error + unit) \<times> world" where
  "path_unlink refusal p w =
     (case refusal of
        Some e \<Rightarrow> (Inl e, w)
      | None \<Rightarrow>
          if files w p = None then (Inl FileNotFoundError, w)
          else (Inr (), w\<lparr>files := (files w)(p := None)\<rparr>))"

subsection \<open>Download: \<open>HeliumUpdater.download_update\<close>\<close>

text \<open>
  One turn of the loop, as the environment decides it: \<open>response.read(8192)\<close> raises, or
  returns a chunk (of at most 8192 bytes, empty at the end of the body) whose \<open>f.write\<close>
  may raise. Reading past the last step returns the empty chunk. The bound on the size
  of a chunk plays no role in what follows.
\<close>

datatype read_step = Read_Raises py_error | Chunk string "py_error option"

record http_response =
  content_length :: "string option"
  body :: "read_step list"









subsection \<open>Install: \<open>HeliumUpdater.install_update\<close>\<close>



subsection \<open>Cleanup: \<open>HeliumUpdater.cleanup_download\<close>\<close>

definition cleanup_download :: "py_error option \<Rightarrow> string \<Rightarrow> world \<Rightarrow> (py_error + unit) \<times> world" where
  "cleanup_download refusal file_path w =
     (case path_unlink refusal file_path w of
        (Inl e, w') \<Rightarrow> (Inr (), w')
      | (Inr u, w') \<Rightarrow> (Inr (), w'))"

section \<open>The specification's notions\<close>

subsection \<open>Versions\<close>

text \<open>
  The specification strips everything from the first \<open>-\<close> onward, reads the rest as
  integers separated by dots, pads the shorter sequence with zeros and compares
  component by component: the first differing component decides.
\<close>

text \<open>\<open>sep.join(parts)\<close>, the inverse of splitting.\<close>

fun join :: "char \<Rightarrow> string list \<Rightarrow> string" where
  "join sep [] = []"
| "join sep [s] = s"
| "join sep (s # t # ts) = s @ sep # join sep (t # ts)"

definition strip_suffix :: "string \<Rightarrow> string" where
  "strip_suffix v = takeWhile (\<lambda>c. c \<noteq> CHR ''-'') v"

definition version_segments :: "string \<Rightarrow> string list" where
  "version_segments v = split_on CHR ''.'' (strip_suffix v)"

definition well_formed_version :: "string \<Rightarrow> bool" where
  "well_formed_version v =
     list_all (\<lambda>seg. seg \<noteq> [] \<and> list_all is_digit seg) (version_segments v)"

text \<open>No component has more digits than \<open>int\<close> accepts.\<close>

definition within_digit_limit :: "string \<Rightarrow> bool" where
  "within_digit_limit v =
     list_all (\<lambda>seg. length seg \<le> int_max_str_digits) (version_segments v)"

text \<open>A well-formed version of one component with 4302 digits: 4301 zeros, then 2.\<close>

definition long_version :: string where
  "long_version = replicate 4301 CHR ''0'' @ ''2''"

definition decimal_value :: "string \<Rightarrow> int" where
  "decimal_value seg = int (foldl (\<lambda>n c. 10 * n + digit_val c) 0 seg)"

definition ints_of :: "string \<Rightarrow> int list" where
  "ints_of v = map decimal_value (version_segments v)"

definition common_length :: "string \<Rightarrow> string \<Rightarrow> nat" where
  "common_length a b = max (length (ints_of a)) (length (ints_of b))"

definition padded_ints_of :: "nat \<Rightarrow> string \<Rightarrow> int list" where
  "padded_ints_of n v = ints_of v @ replicate (n - length (ints_of v)) 0"

definition lex_greater :: "int list \<Rightarrow> int list \<Rightarrow> bool" where
  "lex_greater xs ys = (\<exists>i<length xs. (\<forall>j<i. xs ! j = ys ! j) \<and> xs ! i > ys ! i)"

subsection \<open>A world with no files and empty logs\<close>

definition empty_world :: world where
  "empty_world = \<lparr>files = (\<lambda>p. None), requests = [], progress = [], spawned = []\<rparr>"

subsection \<open>Release records\<close>

text \<open>
  A release record of the shape the release API documents: a non-empty dictionary whose
  \<open>tag_name\<close>, when there, is a string and whose \<open>assets\<close>, when there, is a list of
  dictionaries, each with a string for its \<open>name\<close> if it has one. \<open>package_for arch\<close> is the
  specification's test on an asset: the lower-cased file name carries the architecture
  marker in one of the three delimiter forms and ends in \<open>-installer.exe\<close> or
  \<open>-windows.zip\<close>.
\<close>

definition asset_name :: "json \<Rightarrow> string" where
  "asset_name asset =
     (case asset of
        JDict kvs \<Rightarrow> (case map_of kvs ''name'' of Some (JStr n) \<Rightarrow> n | _ \<Rightarrow> [])
      | _ \<Rightarrow> [])"

definition wf_asset :: "json \<Rightarrow> bool" where
  "wf_asset asset =
     (case asset of
        JDict kvs \<Rightarrow> (case map_of kvs ''name'' of None \<Rightarrow> True | Some (JStr n) \<Rightarrow> True | Some _ \<Rightarrow> False)
      | _ \<Rightarrow> False)"

definition release_assets :: "json \<Rightarrow> json list" where
  "release_assets release =
     (case release of
        JDict kvs \<Rightarrow> (case map_of kvs ''assets'' of Some (JList xs) \<Rightarrow> xs | _ \<Rightarrow> [])
      | _ \<Rightarrow> [])"

definition wf_release :: "json \<Rightarrow> bool" where
  "wf_release release =
     (case release of
        JDict kvs \<Rightarrow>
          kvs \<noteq> []
          \<and> (case map_of kvs ''tag_name'' of None \<Rightarrow> True | Some (JStr t) \<Rightarrow> True | Some _ \<Rightarrow> False)
          \<and> (case map_of kvs ''assets'' of
                None \<Rightarrow> True
              | Some (JList xs) \<Rightarrow> list_all wf_asset xs
              | Some _ \<Rightarrow> False)
      | _ \<Rightarrow> False)"

definition package_for :: "string \<Rightarrow> json \<Rightarrow> bool" where
  "package_for arch asset =
     (let name = lower (asset_name asset)
      in arch_marker arch name
         \<and> (endswith name ''-installer.exe'' \<or> endswith name ''-windows.zip''))"

text \<open>The specification's reading of the tag: one leading \<open>v\<close> is stripped, if present.\<close>

definition strip_leading_v :: "string \<Rightarrow> string" where
  "strip_leading_v tag = (case tag of [] \<Rightarrow> [] | c # r \<Rightarrow> if c = CHR ''v'' then r else tag)"

text \<open>The version that a result of the check carries, as the caller reads it.\<close>

definition result_version :: "py_error + json \<Rightarrow> py_error + json" where
  "result_version result = bnd result (\<lambda>update_info. py_get update_info ''version'' JNull)"

text \<open>The release of the specification's example, for a given tag.\<close>

definition example_release :: "string \<Rightarrow> json" where
  "example_release tag =
     JDict
       [(''tag_name'', JStr tag),
        (''assets'', JList
           [JDict [(''name'', JStr ''helium_1.2.3.4_x64-installer.exe''),
                   (''browser_download_url'', JStr ''https://example.org/helium_1.2.3.4_x64-installer.exe'')],
            JDict [(''name'', JStr ''helium_1.2.3.4_x64-windows.zip''),
                   (''browser_download_url'', JStr ''https://example.org/helium_1.2.3.4_x64-windows.zip'')]])]"

subsection \<open>Downloads\<close>












section \<open>Properties\<close>

lemma split_on_not_Nil: "split_on sep s \<noteq> []"
  by (induction s) (auto split: list.splits)

text \<open>
  Splitting is what it should be: joining the parts gives the string back, and no part
  contains the separator.
\<close>

lemma join_split_on: "join sep (split_on sep s) = s"
proof (induction s)
  case Nil
  show ?case by simp
next
  case (Cons c cs)
  obtain seg segs where r: "split_on sep cs = seg # segs"
    using split_on_not_Nil [of sep cs] by (cases "split_on sep cs") auto
  with Cons show ?case by (cases segs) auto
qed

lemma split_on_no_sep: "seg \<in> set (split_on sep s) \<Longrightarrow> sep \<notin> set seg"
  by (induction s arbitrary: seg) (auto split: if_splits list.splits)

subsection \<open>Version comparison\<close>

lemma hd_split_on: "hd (split_on sep s) = takeWhile (\<lambda>c. c \<noteq> sep) s"
  by (induction s) (auto split: list.splits simp: split_on_not_Nil)

lemma digits_acc_all_digits: "list_all is_digit cs \<Longrightarrow> digits_acc n cs = Some (foldl (\<lambda>n c. 10 * n + digit_val c) n cs)"
  by (induction n cs rule: digits_acc.induct) auto

lemma digit_not_space: "is_digit c \<Longrightarrow> \<not> is_space c"
  by (auto simp: is_digit_def is_space_def)

lemma strip_digits: "list_all is_digit s \<Longrightarrow> s \<noteq> [] \<Longrightarrow> strip s = s"
proof -
  assume a: "list_all is_digit s" and ne: "s \<noteq> []"
  from ne obtain c cs where s: "s = c # cs" by (cases s) auto
  with a have "\<not> is_space c" by (simp add: digit_not_space)
  then have 1: "dropWhile is_space s = s" using s by simp
  from ne have "rev s \<noteq> []" by simp
  then obtain d ds where r: "rev s = d # ds" by (cases "rev s") auto
  then have "d \<in> set s" by (metis list.set_intros(1) set_rev)
  with a have "\<not> is_space d" by (auto simp: list_all_iff digit_not_space)
  then have "dropWhile is_space (rev s) = rev s" using r by simp
  with 1 show ?thesis by (simp add: strip_def)
qed

lemma filter_all_digits: "list_all is_digit s \<Longrightarrow> filter is_digit s = s"
  by (induction s) auto

lemma py_int_digits:
  assumes "list_all is_digit s" "s \<noteq> []" "length s \<le> int_max_str_digits"
  shows "py_int s = Inr (decimal_value s)"
proof -
  from assms obtain c cs where s: "s = c # cs" by (cases s) auto
  with assms have d: "is_digit c" "list_all is_digit cs" by auto
  then have nsign: "c \<noteq> CHR ''+''" "c \<noteq> CHR ''-''" by (auto simp: is_digit_def)
  have pd: "parse_digits s = Some (foldl (\<lambda>n c. 10 * n + digit_val c) 0 s)"
    using d s by (simp add: parse_digits_def digits_acc_all_digits)
  have u: "(case s of [] \<Rightarrow> [] | c # r \<Rightarrow> if c = CHR ''+'' \<or> c = CHR ''-'' then r else s) = s"
    using nsign s by simp
  have neg: "(case s of [] \<Rightarrow> False | c # x \<Rightarrow> c = CHR ''-'') = False"
    using nsign s by simp
  have lim: "\<not> length (filter is_digit s) > int_max_str_digits"
    using assms by (simp add: filter_all_digits)
  show ?thesis
    unfolding py_int_def Let_def strip_digits [OF assms(1,2)] u neg
    using pd lim by (simp add: decimal_value_def)
qed

text \<open>A run of digits that is longer than the limit is refused.\<close>

lemma py_int_over_limit:
  assumes "list_all is_digit s" "length s > int_max_str_digits"
  shows "py_int s = Inl ValueError"
proof -
  from assms have ne: "s \<noteq> []" by auto
  then obtain c cs where s: "s = c # cs" by (cases s) auto
  with assms have d: "is_digit c" "list_all is_digit cs" by auto
  then have nsign: "c \<noteq> CHR ''+''" "c \<noteq> CHR ''-''" by (auto simp: is_digit_def)
  have pd: "parse_digits s = Some (foldl (\<lambda>n c. 10 * n + digit_val c) 0 s)"
    using d s by (simp add: parse_digits_def digits_acc_all_digits)
  have u: "(case s of [] \<Rightarrow> [] | c # r \<Rightarrow> if c = CHR ''+'' \<or> c = CHR ''-'' then r else s) = s"
    using nsign s by simp
  have lim: "length (filter is_digit s) > int_max_str_digits"
    using assms by (simp add: filter_all_digits)
  show ?thesis
    unfolding py_int_def Let_def strip_digits [OF assms(1) ne] u
    using pd lim by simp
qed

lemma int_each_digits:
  "list_all (\<lambda>seg. seg \<noteq> [] \<and> list_all is_digit seg) segs \<Longrightarrow>
   list_all (\<lambda>seg. length seg \<le> int_max_str_digits) segs \<Longrightarrow>
   int_each segs = Inr (map decimal_value segs)"
  by (induction segs) (auto simp: bnd_def py_int_digits)

lemma parse_version_segments: "parse_version v = int_each (version_segments v)"
  by (simp add: parse_version_def version_segments_def strip_suffix_def hd_split_on)

lemma parse_version_well_formed:
  "well_formed_version v \<Longrightarrow> within_digit_limit v \<Longrightarrow> parse_version v = Inr (ints_of v)"
  by (simp add: parse_version_segments well_formed_version_def within_digit_limit_def ints_of_def
        int_each_digits)

lemma lex_greater_Cons:
  "lex_greater (x # xs) (y # ys) = (if x = y then lex_greater xs ys else x > y)"
  by (auto simp: lex_greater_def Ex_less_Suc2 All_less_Suc2)

lemma lex_greater_Nil: "lex_greater [] ys = False"
  by (simp add: lex_greater_def)

lemma list_gt_lex_greater: "length xs = length ys \<Longrightarrow> list_gt xs ys = lex_greater xs ys"
  by (induction xs ys rule: list_induct2) (simp_all add: lex_greater_Nil lex_greater_Cons)

text \<open>On lists of equal length, \<open>lex_greater\<close> is the library's lexicographic order.\<close>

lemma lex_greater_lex:
  "length xs = length ys \<Longrightarrow> lex_greater xs ys = ((ys, xs) \<in> lex {(a, b). a < b})"
  by (induction xs ys rule: list_induct2) (auto simp: lex_greater_Nil lex_greater_Cons)

lemma is_newer_version_well_formed:
  assumes "well_formed_version a" "well_formed_version b"
    and "within_digit_limit a" "within_digit_limit b"
  shows "is_newer_version a b =
     Inr (lex_greater (padded_ints_of (common_length a b) a) (padded_ints_of (common_length a b) b))"
proof -
  let ?n = "max (length (ints_of a)) (length (ints_of b))"
  have len: "length (pad_to ?n (ints_of a)) = length (pad_to ?n (ints_of b))"
    by (simp add: pad_to_def)
  have "compare_versions a b = Inr (list_gt (pad_to ?n (ints_of a)) (pad_to ?n (ints_of b)))"
    using assms by (simp add: compare_versions_def parse_version_well_formed bnd_def Let_def)
  then show ?thesis
    using list_gt_lex_greater[OF len]
    by (simp add: is_newer_version_def padded_ints_of_def pad_to_def common_length_def)
qed

lemma py_int_error: "py_int s = Inl e \<Longrightarrow> e = ValueError"
  by (auto simp: py_int_def Let_def split: option.splits if_splits)

lemma int_each_error: "int_each segs = Inl e \<Longrightarrow> e = ValueError"
  by (induction segs arbitrary: e) (auto simp: bnd_def split: sum.splits dest: py_int_error)

lemma int_each_fails: "seg \<in> set segs \<Longrightarrow> py_int seg = Inl ValueError \<Longrightarrow> int_each segs = Inl ValueError"
  by (induction segs) (auto simp: bnd_def split: sum.splits dest: py_int_error int_each_error)

lemma compare_versions_error: "compare_versions a b = Inl e \<Longrightarrow> e = ValueError"
  by (auto simp: compare_versions_def parse_version_segments bnd_def Let_def split: sum.splits dest: int_each_error)

lemma is_newer_version_returns: "\<exists>r. is_newer_version a b = Inr r"
  by (auto simp: is_newer_version_def split: sum.splits dest: compare_versions_error)

lemma is_newer_version_bad_segment:
  assumes "seg \<in> set (version_segments a) \<union> set (version_segments b)" "py_int seg = Inl ValueError"
  shows "is_newer_version a b = Inr False"
proof -
  have "parse_version a = Inl ValueError \<or> parse_version b = Inl ValueError"
    using assms by (auto simp: parse_version_segments intro: int_each_fails)
  then have "compare_versions a b = Inl ValueError"
    by (auto simp: compare_versions_def bnd_def parse_version_segments split: sum.splits dest: int_each_error)
  then show ?thesis by (simp add: is_newer_version_def)
qed

text \<open>
  Claim C1, amended. For well-formed versions \<open>a\<close> and \<open>b\<close> (after the suffix is stripped:
  dot-separated, non-empty runs of digits) with no component of more digits than \<open>int\<close>
  accepts (4300), \<open>_is_newer_version\<close> returns whether the integers of \<open>a\<close>, padded with zeros
  to the common length, are greater than those of \<open>b\<close>, the first differing component
  deciding; and the four named comparisons come out as specified.
\<close>

theorem is_newer_version_lexicographic:
  "(\<forall>a b. well_formed_version a \<and> well_formed_version b
        \<and> within_digit_limit a \<and> within_digit_limit b \<longrightarrow>
      is_newer_version a b =
        Inr (lex_greater (padded_ints_of (common_length a b) a)
                         (padded_ints_of (common_length a b) b)))
   \<and> is_newer_version ''1.0.0.1'' ''1.0.0.0'' = Inr True
   \<and> is_newer_version ''1.0.0.0'' ''1.0.0.0'' = Inr False
   \<and> is_newer_version ''2.0.0.0'' ''1.9.9.9'' = Inr True
   \<and> is_newer_version ''1.2.0-beta.1'' ''1.1.9'' = Inr True"
proof (intro conjI allI impI)
  fix a b
  assume "well_formed_version a \<and> well_formed_version b
        \<and> within_digit_limit a \<and> within_digit_limit b"
  then show "is_newer_version a b =
        Inr (lex_greater (padded_ints_of (common_length a b) a)
                         (padded_ints_of (common_length a b) b))"
    by (simp add: is_newer_version_well_formed)
next
  show "is_newer_version ''1.0.0.1'' ''1.0.0.0'' = Inr True" by code_simp
next
  show "is_newer_version ''1.0.0.0'' ''1.0.0.0'' = Inr False" by code_simp
next
  show "is_newer_version ''2.0.0.0'' ''1.9.9.9'' = Inr True" by code_simp
next
  show "is_newer_version ''1.2.0-beta.1'' ''1.1.9'' = Inr True" by code_simp
qed

theorem is_newer_version_lexicographic_witness:
  "well_formed_version ''1.2.0-beta.1'' \<and> well_formed_version ''1.1''
   \<and> within_digit_limit ''1.2.0-beta.1'' \<and> within_digit_limit ''1.1''
   \<and> padded_ints_of (common_length ''1.2.0-beta.1'' ''1.1'') ''1.2.0-beta.1'' = [1, 2, 0]
   \<and> padded_ints_of (common_length ''1.2.0-beta.1'' ''1.1'') ''1.1'' = [1, 1, 0]
   \<and> is_newer_version ''1.2.0-beta.1'' ''1.1'' = Inr (lex_greater [1, 2, 0] [1, 1, 0])
   \<and> lex_greater [1, 2, 0] [1, 1, 0]"
proof -
  have wa: "well_formed_version ''1.2.0-beta.1''" by code_simp
  have wb: "well_formed_version ''1.1''" by code_simp
  have la: "within_digit_limit ''1.2.0-beta.1''" by code_simp
  have lb: "within_digit_limit ''1.1''" by code_simp
  have pa: "padded_ints_of (common_length ''1.2.0-beta.1'' ''1.1'') ''1.2.0-beta.1'' = [1, 2, 0]"
    by code_simp
  have pb: "padded_ints_of (common_length ''1.2.0-beta.1'' ''1.1'') ''1.1'' = [1, 1, 0]"
    by code_simp
  have lg: "lex_greater [1, 2, 0] [1, 1, 0]"
    by (simp add: lex_greater_Cons)
  from is_newer_version_lexicographic wa wb la lb
  have "is_newer_version ''1.2.0-beta.1'' ''1.1'' =
        Inr (lex_greater (padded_ints_of (common_length ''1.2.0-beta.1'' ''1.1'') ''1.2.0-beta.1'')
                         (padded_ints_of (common_length ''1.2.0-beta.1'' ''1.1'') ''1.1''))"
    by blast
  with wa wb la lb pa pb lg show ?thesis by simp
qed

lemma split_on_single: "sep \<notin> set s \<Longrightarrow> split_on sep s = [s]"
  by (induction s) auto

lemma version_segments_single:
  "CHR ''-'' \<notin> set s \<Longrightarrow> CHR ''.'' \<notin> set s \<Longrightarrow> version_segments s = [s]"
proof -
  assume d: "CHR ''-'' \<notin> set s" and p: "CHR ''.'' \<notin> set s"
  from d have tw: "takeWhile (\<lambda>c. c \<noteq> CHR ''-'') s = s" by (induction s) auto
  show ?thesis
    unfolding version_segments_def strip_suffix_def tw using p by (rule split_on_single)
qed

lemma decimal_value_zeros:
  "foldl (\<lambda>n c. 10 * n + digit_val c) 0 (replicate k CHR ''0'') = 0"
  by (induction k) (simp_all add: digit_val_def)

lemma long_version_facts:
  shows "version_segments long_version = [long_version]"
    and "list_all is_digit long_version"
    and "length long_version = 4302"
    and "decimal_value long_version = 2"
proof -
  have set: "set long_version = {CHR ''0'', CHR ''2''}"
    by (auto simp: long_version_def)
  then show "version_segments long_version = [long_version]"
    by (intro version_segments_single) simp_all
  from set show "list_all is_digit long_version"
    by (simp add: list_all_iff is_digit_def)
  show "length long_version = 4302"
    by (simp add: long_version_def)
  have two: "digit_val CHR ''2'' = 2" by (simp add: digit_val_def)
  show "decimal_value long_version = 2"
    by (simp add: decimal_value_def long_version_def decimal_value_zeros two)
qed

text \<open>
  Claim C1 as stated fails for a component of 4302 digits: the version of 4301 zeros
  and a 2 is well formed and its only integer, 2, is greater than that of \<open>1\<close>, yet
  \<open>int\<close> refuses the component and the comparison returns \<open>False\<close>.
\<close>

theorem is_newer_version_long_component_counterexample:
  "well_formed_version long_version \<and> well_formed_version ''1''
   \<and> lex_greater (padded_ints_of (common_length long_version ''1'') long_version)
                  (padded_ints_of (common_length long_version ''1'') ''1'')
   \<and> is_newer_version long_version ''1'' = Inr False"
proof -
  note f = long_version_facts
  have wa: "well_formed_version long_version"
    using f(2,3) by (auto simp: well_formed_version_def f(1))
  have wb: "well_formed_version ''1''" by code_simp
  have ib: "ints_of ''1'' = [1]" by code_simp
  have ia: "ints_of long_version = [2]"
    by (simp add: ints_of_def f(1) f(4))
  have lg: "lex_greater (padded_ints_of (common_length long_version ''1'') long_version)
                  (padded_ints_of (common_length long_version ''1'') ''1'')"
    by (simp add: common_length_def padded_ints_of_def ia ib lex_greater_Cons)
  have "py_int long_version = Inl ValueError"
    using f(2,3) by (intro py_int_over_limit) (simp_all add: int_max_str_digits_def)
  moreover have "long_version \<in> set (version_segments long_version) \<union> set (version_segments ''1'')"
    by (simp add: f(1))
  ultimately have "is_newer_version long_version ''1'' = Inr False"
    by (intro is_newer_version_bad_segment [of long_version]) simp_all
  with wa wb lg show ?thesis by blast
qed

text \<open>
  Claim C3. When a segment of either input is not accepted by \<open>int\<close>, \<open>_is_newer_version\<close>
  returns \<open>False\<close>; and on strings it always returns, it never raises.
\<close>

theorem is_newer_version_fails_closed:
  "(\<forall>a b seg. seg \<in> set (version_segments a) \<union> set (version_segments b)
        \<and> py_int seg = Inl ValueError \<longrightarrow> is_newer_version a b = Inr False)
   \<and> (\<forall>a b. \<exists>r. is_newer_version a b = Inr r)"
  using is_newer_version_bad_segment is_newer_version_returns by blast

theorem is_newer_version_fails_closed_witness:
  "''x'' \<in> set (version_segments ''1.x'') \<union> set (version_segments ''1.0-7'')
   \<and> py_int ''x'' = Inl ValueError
   \<and> is_newer_version ''1.x'' ''1.0-7'' = Inr False"
proof -
  have m: "''x'' \<in> set (version_segments ''1.x'') \<union> set (version_segments ''1.0-7'')"
    by code_simp
  have p: "py_int ''x'' = Inl ValueError" by code_simp
  from is_newer_version_fails_closed m p
  have "is_newer_version ''1.x'' ''1.0-7'' = Inr False" by blast
  with m p show ?thesis by simp
qed

subsection \<open>Architecture resolution\<close>

lemma get_architecture_cases:
  "get_architecture m = (if lower m \<in> {''arm64'', ''aarch64''} then ''arm64'' else ''x64'')"
  by (simp add: get_architecture_def Let_def)

text \<open>
  Claim C7. Architecture resolution is total: every machine string resolves to \<open>x64\<close> or
  \<open>arm64\<close>; \<open>amd64\<close> and \<open>x86_64\<close> give \<open>x64\<close>, \<open>arm64\<close> and \<open>aarch64\<close> give \<open>arm64\<close>, and
  every other value gives \<open>x64\<close>. The string is compared in lower case, so a value is
  recognised whatever its capitalisation.
\<close>

theorem get_architecture_total:
  "get_architecture m \<in> {''x64'', ''arm64''}
   \<and> get_architecture ''amd64'' = ''x64'' \<and> get_architecture ''x86_64'' = ''x64''
   \<and> get_architecture ''arm64'' = ''arm64'' \<and> get_architecture ''aarch64'' = ''arm64''
   \<and> (lower m \<in> {''amd64'', ''x86_64''} \<longrightarrow> get_architecture m = ''x64'')
   \<and> (lower m \<in> {''arm64'', ''aarch64''} \<longrightarrow> get_architecture m = ''arm64'')
   \<and> (lower m \<notin> {''amd64'', ''x86_64'', ''arm64'', ''aarch64''} \<longrightarrow> get_architecture m = ''x64'')"
proof -
  have 1: "get_architecture ''amd64'' = ''x64''" by code_simp
  have 2: "get_architecture ''x86_64'' = ''x64''" by code_simp
  have 3: "get_architecture ''arm64'' = ''arm64''" by code_simp
  have 4: "get_architecture ''aarch64'' = ''arm64''" by code_simp
  have 5: "get_architecture m \<in> {''x64'', ''arm64''}" by (simp add: get_architecture_cases)
  have 6: "lower m \<in> {''amd64'', ''x86_64''} \<longrightarrow> get_architecture m = ''x64''"
    by (auto simp: get_architecture_cases)
  have 7: "lower m \<in> {''arm64'', ''aarch64''} \<longrightarrow> get_architecture m = ''arm64''"
    by (simp add: get_architecture_cases)
  have 8: "lower m \<notin> {''amd64'', ''x86_64'', ''arm64'', ''aarch64''} \<longrightarrow> get_architecture m = ''x64''"
    by (simp add: get_architecture_cases)
  from 1 2 3 4 5 6 7 8 show ?thesis by blast
qed

theorem get_architecture_total_witness:
  "lower ''riscv64'' \<notin> {''amd64'', ''x86_64'', ''arm64'', ''aarch64''}
   \<and> get_architecture ''riscv64'' = ''x64''
   \<and> lower ''ARM64'' \<in> {''arm64'', ''aarch64''} \<and> get_architecture ''ARM64'' = ''arm64''"
proof -
  have a: "lower ''riscv64'' \<notin> {''amd64'', ''x86_64'', ''arm64'', ''aarch64''}" by code_simp
  have b: "lower ''ARM64'' \<in> {''arm64'', ''aarch64''}" by code_simp
  from a get_architecture_total [of "''riscv64''"] have c: "get_architecture ''riscv64'' = ''x64''"
    by blast
  from b get_architecture_total [of "''ARM64''"] have d: "get_architecture ''ARM64'' = ''arm64''"
    by blast
  from a b c d show ?thesis by blast
qed

subsection \<open>Install\<close>





subsection \<open>Cleanup\<close>

text \<open>
  Claim C9. \<open>cleanup_download\<close> never raises, whatever the path and whatever the failure
  of the deletion; for a path that names no file it returns and leaves the world as it
  was. A file that exists and whose deletion is not refused is gone afterwards.
\<close>

theorem cleanup_download_never_raises:
  "fst (cleanup_download refusal p w) = Inr ()
   \<and> (\<not> path_exists p w \<longrightarrow> cleanup_download refusal p w = (Inr (), w))
   \<and> (path_exists p w \<and> refusal = None \<longrightarrow> \<not> path_exists p (snd (cleanup_download refusal p w)))"
  by (auto simp: cleanup_download_def path_unlink_def path_exists_def split: option.splits)

theorem cleanup_download_never_raises_witness:
  "\<not> path_exists ''C:/Temp/missing.exe'' empty_world
   \<and> cleanup_download None ''C:/Temp/missing.exe'' empty_world = (Inr (), empty_world)"
proof -
  have n: "\<not> path_exists ''C:/Temp/missing.exe'' empty_world"
    by (simp add: path_exists_def empty_world_def)
  with cleanup_download_never_raises [of None "''C:/Temp/missing.exe''" empty_world]
  show ?thesis by blast
qed

subsection \<open>Update availability\<close>

lemma bnd_Inr: "bnd (Inr x) f = f x"
  by (simp add: bnd_def)

lemma contains_empty: "contains sub [] = (sub = [])"
  by (simp add: contains_def)

lemma arch_marker_empty: "\<not> arch_marker arch []"
  by (simp add: arch_marker_def contains_empty)

lemma package_for_truthy: "package_for arch a \<Longrightarrow> truthy a"
  by (auto simp: package_for_def asset_name_def Let_def lower_def arch_marker_empty
           split: json.splits option.splits)

lemma scan_assets_step:
  assumes "wf_asset a"
  shows "scan_assets arch (a # rest) i z =
     (if arch_marker arch (lower (asset_name a)) then
        (if endswith (lower (asset_name a)) ''-installer.exe'' then scan_assets arch rest a z
         else if endswith (lower (asset_name a)) ''-windows.zip'' then scan_assets arch rest i a
         else scan_assets arch rest i z)
      else scan_assets arch rest i z)"
proof -
  from assms obtain kvs where a: "a = JDict kvs" by (auto simp: wf_asset_def split: json.splits)
  from assms a have "py_get a ''name'' (JStr []) = Inr (JStr (asset_name a))"
    by (auto simp: wf_asset_def asset_name_def split: option.splits json.splits)
  then show ?thesis by (simp add: bnd_def)
qed

lemma scan_assets_wf:
  "list_all wf_asset xs \<Longrightarrow>
   \<exists>i' z'. scan_assets arch xs i z = Inr (i', z')
     \<and> ((truthy i' \<or> truthy z') = (truthy i \<or> truthy z \<or> (\<exists>a\<in>set xs. package_for arch a)))"
proof (induction xs arbitrary: i z)
  case Nil
  then show ?case by simp
next
  case (Cons a xs)
  then have wa: "wf_asset a" and wxs: "list_all wf_asset xs" by simp_all
  note step = scan_assets_step [OF wa, of arch xs]
  show ?case
  proof (cases "package_for arch a")
    case True
    then have ta: "truthy a" by (rule package_for_truthy)
    from True have m: "arch_marker arch (lower (asset_name a))"
      and s: "endswith (lower (asset_name a)) ''-installer.exe'' \<or> endswith (lower (asset_name a)) ''-windows.zip''"
      by (simp_all add: package_for_def Let_def)
    show ?thesis
    proof (cases "endswith (lower (asset_name a)) ''-installer.exe''")
      case True
      with Cons.IH [OF wxs, of a z] m ta \<open>package_for arch a\<close> show ?thesis
        by (auto simp: step simp del: scan_assets.simps)
    next
      case False
      with s have "endswith (lower (asset_name a)) ''-windows.zip''" by simp
      with Cons.IH [OF wxs, of i a] m ta False \<open>package_for arch a\<close> show ?thesis
        by (auto simp: step simp del: scan_assets.simps)
    qed
  next
    case False
    then have "scan_assets arch (a # xs) i z = scan_assets arch xs i z"
      by (auto simp: step package_for_def Let_def simp del: scan_assets.simps)
    with Cons.IH [OF wxs, of i z] False show ?thesis by auto
  qed
qed

lemma is_newer_version_empty: "is_newer_version [] cur = Inr False"
proof -
  have "[] \<in> set (version_segments []) \<union> set (version_segments cur)"
    by (simp add: version_segments_def strip_suffix_def)
  moreover have "py_int [] = Inl ValueError"
    by (simp add: py_int_def strip_def parse_digits_def)
  ultimately show ?thesis by (rule is_newer_version_bad_segment)
qed

lemma wf_release_assets: "wf_release rel \<Longrightarrow> list_all wf_asset (release_assets rel)"
proof -
  assume wf: "wf_release rel"
  then obtain kvs where rel: "rel = JDict kvs"
    by (auto simp: wf_release_def split: json.splits)
  with wf show ?thesis
    by (auto simp: wf_release_def release_assets_def split: option.splits json.splits)
qed

lemma check_for_updates_wf:
  assumes wf: "wf_release rel" and v: "latest_version_of rel = Inr v"
    and newer: "is_newer_version v cur = Inr True"
  shows "\<exists>i z rnotes url pub.
     scan_assets (get_architecture machine) (release_assets rel) JNull JNull = Inr (i, z) \<and>
     check_for_updates cur machine (Inr rel) =
       (if \<exists>a\<in>set (release_assets rel). package_for (get_architecture machine) a
        then Inr (JDict
               [(''version'', JStr v), (''release_notes'', rnotes), (''release_url'', url),
                (''published_at'', pub), (''installer'', i), (''zip_package'', z),
                (''architecture'', JStr (get_architecture machine))])
        else Inr JNull)"
proof -
  from wf obtain kvs where rel: "rel = JDict kvs" and ne: "kvs \<noteq> []"
    by (auto simp: wf_release_def split: json.splits)
  from newer have vne: "v \<noteq> []" using is_newer_version_empty [of cur] by auto
  have assets: "bnd (py_get rel ''assets'' (JList [])) py_iter = Inr (release_assets rel)"
    using wf rel by (auto simp: wf_release_def release_assets_def bnd_def split: option.splits json.splits)
  then have assets': "\<And>f. bnd (py_get rel ''assets'' (JList [])) (\<lambda>assets. bnd (py_iter assets) f) = f (release_assets rel)"
    by (auto simp: bnd_def split: sum.splits)
  have wfa: "list_all wf_asset (release_assets rel)"
    using wf by (rule wf_release_assets)
  from scan_assets_wf [OF wfa, of "get_architecture machine" JNull JNull]
  obtain i z where scan: "scan_assets (get_architecture machine) (release_assets rel) JNull JNull = Inr (i, z)"
    and tr: "(truthy i \<or> truthy z) = (\<exists>a\<in>set (release_assets rel). package_for (get_architecture machine) a)"
    by auto
  from rel ne have t: "truthy rel" by simp
  from rel obtain rnotes url pub where g:
    "py_get rel ''body'' (JStr []) = Inr rnotes"
    "py_get rel ''html_url'' JNull = Inr url"
    "py_get rel ''published_at'' JNull = Inr pub"
    by simp
  have "check_for_updates cur machine (Inr rel) =
       (if \<exists>a\<in>set (release_assets rel). package_for (get_architecture machine) a
        then Inr (JDict
               [(''version'', JStr v), (''release_notes'', rnotes), (''release_url'', url),
                (''published_at'', pub), (''installer'', i), (''zip_package'', z),
                (''architecture'', JStr (get_architecture machine))])
        else Inr JNull)"
    using t v vne newer scan tr g
    by (simp add: check_for_updates_def make_request_def Let_def assets' bnd_Inr)
  with scan show ?thesis by blast
qed


lemma check_for_updates_arch:
  assumes "get_architecture m = get_architecture m'"
  shows "check_for_updates cur m response = check_for_updates cur m' response"
  unfolding check_for_updates_def Let_def assms by (rule refl)

lemma package_for_marker: "package_for arch a \<Longrightarrow> arch_marker arch (lower (asset_name a))"
  by (simp add: package_for_def Let_def)

text \<open>
  Claim C2. For a release record of the API's shape whose tag is newer than the current
  version, \<open>check_for_updates\<close> returns a populated result exactly when some asset passes
  the test \<open>package_for\<close> for the resolved architecture, and \<open>None\<close> otherwise; in particular
  it returns \<open>None\<close> when no asset name carries the architecture marker. For the example
  release with tag 1.2.3.4 and current version 1.0.0.0, a host that resolves to \<open>x64\<close> gets
  the version 1.2.3.4, both assets and the architecture \<open>x64\<close>; a host that resolves to
  \<open>arm64\<close> gets \<open>None\<close>, though the tag is newer.
\<close>

theorem check_for_updates_populated_iff:
  "(\<forall>cur machine rel v.
      wf_release rel \<and> latest_version_of rel = Inr v \<and> is_newer_version v cur = Inr True \<longrightarrow>
        ((\<exists>d. check_for_updates cur machine (Inr rel) = Inr (JDict d))
           = (\<exists>a\<in>set (release_assets rel). package_for (get_architecture machine) a))
        \<and> ((check_for_updates cur machine (Inr rel) = Inr JNull)
           = (\<not> (\<exists>a\<in>set (release_assets rel). package_for (get_architecture machine) a)))
        \<and> ((\<forall>a\<in>set (release_assets rel).
               \<not> arch_marker (get_architecture machine) (lower (asset_name a)))
             \<longrightarrow> check_for_updates cur machine (Inr rel) = Inr JNull))
   \<and> (\<forall>machine. get_architecture machine = ''x64'' \<longrightarrow>
        check_for_updates ''1.0.0.0'' machine (Inr (example_release ''1.2.3.4'')) =
          Inr (JDict
            [(''version'', JStr ''1.2.3.4''),
             (''release_notes'', JStr []),
             (''release_url'', JNull),
             (''published_at'', JNull),
             (''installer'', JDict
                [(''name'', JStr ''helium_1.2.3.4_x64-installer.exe''),
                 (''browser_download_url'',
                  JStr ''https://example.org/helium_1.2.3.4_x64-installer.exe'')]),
             (''zip_package'', JDict
                [(''name'', JStr ''helium_1.2.3.4_x64-windows.zip''),
                 (''browser_download_url'',
                  JStr ''https://example.org/helium_1.2.3.4_x64-windows.zip'')]),
             (''architecture'', JStr ''x64'')]))
   \<and> (\<forall>machine. get_architecture machine = ''arm64'' \<longrightarrow>
        is_newer_version ''1.2.3.4'' ''1.0.0.0'' = Inr True
        \<and> check_for_updates ''1.0.0.0'' machine (Inr (example_release ''1.2.3.4'')) = Inr JNull)"
proof (intro conjI allI impI)
  fix cur machine rel v
  assume h: "wf_release rel \<and> latest_version_of rel = Inr v \<and> is_newer_version v cur = Inr True"
  then obtain i z rnotes url pub where c:
    "check_for_updates cur machine (Inr rel) =
       (if \<exists>a\<in>set (release_assets rel). package_for (get_architecture machine) a
        then Inr (JDict
               [(''version'', JStr v), (''release_notes'', rnotes), (''release_url'', url),
                (''published_at'', pub), (''installer'', i), (''zip_package'', z),
                (''architecture'', JStr (get_architecture machine))])
        else Inr JNull)"
    using check_for_updates_wf [of rel v cur machine] by blast
  show "(\<exists>d. check_for_updates cur machine (Inr rel) = Inr (JDict d))
           = (\<exists>a\<in>set (release_assets rel). package_for (get_architecture machine) a)"
    by (simp add: c)
  show "(check_for_updates cur machine (Inr rel) = Inr JNull)
           = (\<not> (\<exists>a\<in>set (release_assets rel). package_for (get_architecture machine) a))"
    by (simp add: c)
  assume "\<forall>a\<in>set (release_assets rel). \<not> arch_marker (get_architecture machine) (lower (asset_name a))"
  then have "\<not> (\<exists>a\<in>set (release_assets rel). package_for (get_architecture machine) a)"
    using package_for_marker by blast
  then show "check_for_updates cur machine (Inr rel) = Inr JNull"
    by (simp add: c)
next
  fix machine
  assume "get_architecture machine = ''x64''"
  moreover have "get_architecture ''amd64'' = ''x64''" by code_simp
  ultimately have "check_for_updates ''1.0.0.0'' machine (Inr (example_release ''1.2.3.4''))
      = check_for_updates ''1.0.0.0'' ''amd64'' (Inr (example_release ''1.2.3.4''))"
    by (intro check_for_updates_arch) simp
  also have "\<dots> = Inr (JDict
            [(''version'', JStr ''1.2.3.4''),
             (''release_notes'', JStr []),
             (''release_url'', JNull),
             (''published_at'', JNull),
             (''installer'', JDict
                [(''name'', JStr ''helium_1.2.3.4_x64-installer.exe''),
                 (''browser_download_url'',
                  JStr ''https://example.org/helium_1.2.3.4_x64-installer.exe'')]),
             (''zip_package'', JDict
                [(''name'', JStr ''helium_1.2.3.4_x64-windows.zip''),
                 (''browser_download_url'',
                  JStr ''https://example.org/helium_1.2.3.4_x64-windows.zip'')]),
             (''architecture'', JStr ''x64'')])"
    by code_simp
  finally show "check_for_updates ''1.0.0.0'' machine (Inr (example_release ''1.2.3.4'')) =
          Inr (JDict
            [(''version'', JStr ''1.2.3.4''),
             (''release_notes'', JStr []),
             (''release_url'', JNull),
             (''published_at'', JNull),
             (''installer'', JDict
                [(''name'', JStr ''helium_1.2.3.4_x64-installer.exe''),
                 (''browser_download_url'',
                  JStr ''https://example.org/helium_1.2.3.4_x64-installer.exe'')]),
             (''zip_package'', JDict
                [(''name'', JStr ''helium_1.2.3.4_x64-windows.zip''),
                 (''browser_download_url'',
                  JStr ''https://example.org/helium_1.2.3.4_x64-windows.zip'')]),
             (''architecture'', JStr ''x64'')])" .
next
  fix machine
  assume "get_architecture machine = ''arm64''"
  show "is_newer_version ''1.2.3.4'' ''1.0.0.0'' = Inr True" by code_simp
next
  fix machine
  assume "get_architecture machine = ''arm64''"
  moreover have "get_architecture ''arm64'' = ''arm64''" by code_simp
  ultimately have "check_for_updates ''1.0.0.0'' machine (Inr (example_release ''1.2.3.4''))
      = check_for_updates ''1.0.0.0'' ''arm64'' (Inr (example_release ''1.2.3.4''))"
    by (intro check_for_updates_arch) simp
  also have "\<dots> = Inr JNull" by code_simp
  finally show "check_for_updates ''1.0.0.0'' machine (Inr (example_release ''1.2.3.4'')) = Inr JNull" .
qed

theorem check_for_updates_populated_iff_witness:
  "wf_release (example_release ''v1.2.3.4'')
   \<and> latest_version_of (example_release ''v1.2.3.4'') = Inr ''1.2.3.4''
   \<and> is_newer_version ''1.2.3.4'' ''1.0.0.0'' = Inr True
   \<and> package_for (get_architecture ''AMD64'') (hd (release_assets (example_release ''v1.2.3.4'')))
   \<and> (\<exists>d. check_for_updates ''1.0.0.0'' ''AMD64'' (Inr (example_release ''v1.2.3.4'')) = Inr (JDict d))
   \<and> get_architecture ''ARM64'' = ''arm64''
   \<and> check_for_updates ''1.0.0.0'' ''ARM64'' (Inr (example_release ''1.2.3.4'')) = Inr JNull"
proof -
  have w: "wf_release (example_release ''v1.2.3.4'')" by code_simp
  have l: "latest_version_of (example_release ''v1.2.3.4'') = Inr ''1.2.3.4''" by code_simp
  have n: "is_newer_version ''1.2.3.4'' ''1.0.0.0'' = Inr True" by code_simp
  have p: "package_for (get_architecture ''AMD64'') (hd (release_assets (example_release ''v1.2.3.4'')))"
    by code_simp
  have m: "hd (release_assets (example_release ''v1.2.3.4'')) \<in> set (release_assets (example_release ''v1.2.3.4''))"
    by code_simp
  from p m have ex: "\<exists>a\<in>set (release_assets (example_release ''v1.2.3.4'')). package_for (get_architecture ''AMD64'') a"
    by blast
  have g: "get_architecture ''ARM64'' = ''arm64''" by code_simp
  from check_for_updates_populated_iff w l n ex
  have d: "\<exists>d. check_for_updates ''1.0.0.0'' ''AMD64'' (Inr (example_release ''v1.2.3.4'')) = Inr (JDict d)"
    by blast
  from check_for_updates_populated_iff g
  have e: "check_for_updates ''1.0.0.0'' ''ARM64'' (Inr (example_release ''1.2.3.4'')) = Inr JNull"
    by blast
  from w l n p d g e show ?thesis by blast
qed

lemma latest_version_of_tag:
  "map_of kvs ''tag_name'' = Some (JStr tag) \<Longrightarrow>
   latest_version_of (JDict kvs) = Inr (dropWhile (\<lambda>c. c = CHR ''v'') tag)"
  by (simp add: latest_version_of_def bnd_def lstrip_def)

lemma latest_version_of_no_tag:
  "map_of kvs ''tag_name'' = None \<Longrightarrow> latest_version_of (JDict kvs) = Inr []"
  by (simp add: latest_version_of_def bnd_def lstrip_def)

lemma check_for_updates_empty_candidate:
  "latest_version_of rel = Inr [] \<Longrightarrow> check_for_updates cur machine (Inr rel) = Inr JNull"
  by (simp add: check_for_updates_def make_request_def Let_def bnd_def)

lemma check_for_updates_version:
  assumes "latest_version_of rel = Inr v"
    and "check_for_updates cur machine (Inr rel) = Inr (JDict d)"
  shows "map_of d ''version'' = Some (JStr v)"
  using assms unfolding check_for_updates_def Let_def make_request_def
  by (auto simp: bnd_def split: if_splits sum.splits)

text \<open>
  Claim C8, amended. The candidate version is the tag with every leading \<open>v\<close> stripped
  (the rest of the tag unchanged), the empty string when the record has no tag; a
  populated result carries the candidate as its version; and when the candidate is empty
  the check returns \<open>None\<close>.
\<close>

theorem latest_version_strips_every_leading_v:
  "(\<forall>kvs tag. map_of kvs ''tag_name'' = Some (JStr tag) \<longrightarrow>
      latest_version_of (JDict kvs) = Inr (dropWhile (\<lambda>c. c = CHR ''v'') tag))
   \<and> (\<forall>kvs. map_of kvs ''tag_name'' = None \<longrightarrow> latest_version_of (JDict kvs) = Inr [])
   \<and> (\<forall>cur machine rel. latest_version_of rel = Inr [] \<longrightarrow>
        check_for_updates cur machine (Inr rel) = Inr JNull)
   \<and> (\<forall>cur machine rel v d.
        latest_version_of rel = Inr v \<and> check_for_updates cur machine (Inr rel) = Inr (JDict d) \<longrightarrow>
        map_of d ''version'' = Some (JStr v))"
  using latest_version_of_tag latest_version_of_no_tag check_for_updates_empty_candidate
    check_for_updates_version
  by blast

theorem latest_version_strips_every_leading_v_witness:
  "map_of [(''tag_name'', JStr ''v1.2.3.4'')] ''tag_name'' = Some (JStr ''v1.2.3.4'')
   \<and> latest_version_of (JDict [(''tag_name'', JStr ''v1.2.3.4'')]) = Inr ''1.2.3.4''
   \<and> latest_version_of (example_release ''v'') = Inr []
   \<and> check_for_updates ''1.0.0.0'' ''AMD64'' (Inr (example_release ''v'')) = Inr JNull"
proof -
  have m: "map_of [(''tag_name'', JStr ''v1.2.3.4'')] ''tag_name'' = Some (JStr ''v1.2.3.4'')"
    by simp
  have d: "dropWhile (\<lambda>c. c = CHR ''v'') ''v1.2.3.4'' = ''1.2.3.4''" by simp
  have e: "latest_version_of (example_release ''v'') = Inr []" by code_simp
  from latest_version_strips_every_leading_v m
  have "latest_version_of (JDict [(''tag_name'', JStr ''v1.2.3.4'')])
        = Inr (dropWhile (\<lambda>c. c = CHR ''v'') ''v1.2.3.4'')"
    by blast
  with d have l: "latest_version_of (JDict [(''tag_name'', JStr ''v1.2.3.4'')]) = Inr ''1.2.3.4''"
    by simp
  from latest_version_strips_every_leading_v e
  have c: "check_for_updates ''1.0.0.0'' ''AMD64'' (Inr (example_release ''v'')) = Inr JNull"
    by blast
  from m l e c show ?thesis by blast
qed

text \<open>
  Claim C8 as stated, with one leading \<open>v\<close> stripped, fails for the tag \<open>vv1.2.3.4\<close>: the
  candidate is \<open>1.2.3.4\<close>, not \<open>v1.2.3.4\<close>, and it is the version of the result.
\<close>

theorem latest_version_single_v_counterexample:
  "strip_leading_v ''vv1.2.3.4'' = ''v1.2.3.4''
   \<and> latest_version_of (example_release ''vv1.2.3.4'') = Inr ''1.2.3.4''
   \<and> latest_version_of (example_release ''vv1.2.3.4'') \<noteq> Inr (strip_leading_v ''vv1.2.3.4'')
   \<and> result_version (check_for_updates ''1.0.0.0'' ''AMD64'' (Inr (example_release ''vv1.2.3.4'')))
       = Inr (JStr ''1.2.3.4'')"
  by code_simp

subsection \<open>Download\<close>




























text \<open>
  The assets of a result of \<open>check_for_updates\<close> are \<open>None\<close> or non-empty records.
\<close>

lemma scan_assets_selected:
  "list_all wf_asset xs \<Longrightarrow> scan_assets arch xs i z = Inr (i', z') \<Longrightarrow>
   (i' = i \<or> package_for arch i') \<and> (z' = z \<or> package_for arch z')"
proof (induction xs arbitrary: i z)
  case Nil
  then show ?case by simp
next
  case (Cons a xs)
  then have wa: "wf_asset a" and wxs: "list_all wf_asset xs" by simp_all
  note step = scan_assets_step [OF wa, of arch xs]
  from Cons.prems(2) Cons.IH [OF wxs] show ?case
    by (auto simp: step package_for_def Let_def simp del: scan_assets.simps split: if_splits)
qed

lemma check_for_updates_assets_present:
  assumes wf: "wf_release rel"
    and res: "check_for_updates cur machine (Inr rel) = Inr (JDict d)"
    and a: "map_of d ''installer'' = Some a \<or> map_of d ''zip_package'' = Some a"
  shows "truthy a \<or> a = JNull"
proof -
  from res obtain v where v: "latest_version_of rel = Inr v" and n: "is_newer_version v cur = Inr True"
    unfolding check_for_updates_def Let_def make_request_def
    by (auto simp: bnd_def [of "latest_version_of rel"] bnd_def [of "is_newer_version _ _"]
          split: sum.splits if_splits)
  from check_for_updates_wf [OF wf v n, of machine] obtain i z rnotes url pub where
    scan: "scan_assets (get_architecture machine) (release_assets rel) JNull JNull = Inr (i, z)"
    and c: "check_for_updates cur machine (Inr rel) =
       (if \<exists>a\<in>set (release_assets rel). package_for (get_architecture machine) a
        then Inr (JDict
               [(''version'', JStr v), (''release_notes'', rnotes), (''release_url'', url),
                (''published_at'', pub), (''installer'', i), (''zip_package'', z),
                (''architecture'', JStr (get_architecture machine))])
        else Inr JNull)"
    by blast
  have wfa: "list_all wf_asset (release_assets rel)"
    using wf by (rule wf_release_assets)
  from scan_assets_selected [OF wfa scan]
  have sel: "(i = JNull \<or> truthy i) \<and> (z = JNull \<or> truthy z)"
    by (auto dest: package_for_truthy)
  from res c have "map_of d ''installer'' = Some i \<and> map_of d ''zip_package'' = Some z"
    by (auto split: if_splits)
  with a sel show ?thesis by auto
qed

end
